theory Spec2Isabelle
  imports Complex_Main
begin

section \<open>JavaScript numbers\<close>

text \<open>
  The calculator of \<^verbatim>\<open>src/core/ta.ts\<close> computes on JavaScript numbers. A number is
  modelled as one of the three special values of IEEE-754 or a finite value, and a finite
  value is an exact real: rounding and overflow of doubles are not modelled, and the two
  zeros are one value. The operations follow ECMAScript on the special values, so that a
  comparison with \<open>NaN\<close> is false and \<open>Infinity - Infinity\<close> is \<open>NaN\<close>.
\<close>

datatype jsnum = NaN | PosInfinity | NegInfinity | Fin real

instantiation jsnum :: "{plus, minus, uminus, times, inverse, abs, ord}"
begin

fun uminus_jsnum :: "jsnum \<Rightarrow> jsnum" where
  "uminus_jsnum NaN = NaN"
| "uminus_jsnum PosInfinity = NegInfinity"
| "uminus_jsnum NegInfinity = PosInfinity"
| "uminus_jsnum (Fin a) = Fin (- a)"

fun plus_jsnum :: "jsnum \<Rightarrow> jsnum \<Rightarrow> jsnum" where
  "plus_jsnum (Fin a) (Fin b) = Fin (a + b)"
| "plus_jsnum NaN _ = NaN"
| "plus_jsnum _ NaN = NaN"
| "plus_jsnum PosInfinity NegInfinity = NaN"
| "plus_jsnum NegInfinity PosInfinity = NaN"
| "plus_jsnum PosInfinity _ = PosInfinity"
| "plus_jsnum _ PosInfinity = PosInfinity"
| "plus_jsnum NegInfinity _ = NegInfinity"
| "plus_jsnum _ NegInfinity = NegInfinity"

definition minus_jsnum :: "jsnum \<Rightarrow> jsnum \<Rightarrow> jsnum" where
  "minus_jsnum x y = x + (- y)"

fun times_jsnum :: "jsnum \<Rightarrow> jsnum \<Rightarrow> jsnum" where
  "times_jsnum (Fin a) (Fin b) = Fin (a * b)"
| "times_jsnum NaN _ = NaN"
| "times_jsnum _ NaN = NaN"
| "times_jsnum PosInfinity PosInfinity = PosInfinity"
| "times_jsnum PosInfinity NegInfinity = NegInfinity"
| "times_jsnum NegInfinity PosInfinity = NegInfinity"
| "times_jsnum NegInfinity NegInfinity = PosInfinity"
| "times_jsnum PosInfinity (Fin b) =
     (if b = 0 then NaN else if 0 < b then PosInfinity else NegInfinity)"
| "times_jsnum NegInfinity (Fin b) =
     (if b = 0 then NaN else if 0 < b then NegInfinity else PosInfinity)"
| "times_jsnum (Fin a) PosInfinity =
     (if a = 0 then NaN else if 0 < a then PosInfinity else NegInfinity)"
| "times_jsnum (Fin a) NegInfinity =
     (if a = 0 then NaN else if 0 < a then NegInfinity else PosInfinity)"

text \<open>A zero divisor is read as \<open>+0\<close>; every divisor in the source is a non-zero constant.\<close>

fun divide_jsnum :: "jsnum \<Rightarrow> jsnum \<Rightarrow> jsnum" where
  "divide_jsnum (Fin a) (Fin b) =
     (if b = 0 then (if a = 0 then NaN else if 0 < a then PosInfinity else NegInfinity)
      else Fin (a / b))"
| "divide_jsnum NaN _ = NaN"
| "divide_jsnum _ NaN = NaN"
| "divide_jsnum (Fin a) _ = Fin 0"
| "divide_jsnum PosInfinity (Fin b) = (if 0 \<le> b then PosInfinity else NegInfinity)"
| "divide_jsnum NegInfinity (Fin b) = (if 0 \<le> b then NegInfinity else PosInfinity)"
| "divide_jsnum PosInfinity _ = NaN"
| "divide_jsnum NegInfinity _ = NaN"

definition inverse_jsnum :: "jsnum \<Rightarrow> jsnum" where
  "inverse_jsnum x = divide (Fin 1) x"

fun abs_jsnum :: "jsnum \<Rightarrow> jsnum" where
  "abs_jsnum NaN = NaN"
| "abs_jsnum PosInfinity = PosInfinity"
| "abs_jsnum NegInfinity = PosInfinity"
| "abs_jsnum (Fin a) = Fin \<bar>a\<bar>"

fun less_jsnum :: "jsnum \<Rightarrow> jsnum \<Rightarrow> bool" where
  "less_jsnum (Fin a) (Fin b) = (a < b)"
| "less_jsnum NaN _ = False"
| "less_jsnum _ NaN = False"
| "less_jsnum _ NegInfinity = False"
| "less_jsnum PosInfinity _ = False"
| "less_jsnum NegInfinity _ = True"
| "less_jsnum _ PosInfinity = True"

fun less_eq_jsnum :: "jsnum \<Rightarrow> jsnum \<Rightarrow> bool" where
  "less_eq_jsnum (Fin a) (Fin b) = (a \<le> b)"
| "less_eq_jsnum NaN _ = False"
| "less_eq_jsnum _ NaN = False"
| "less_eq_jsnum NegInfinity _ = True"
| "less_eq_jsnum _ PosInfinity = True"
| "less_eq_jsnum PosInfinity _ = False"
| "less_eq_jsnum _ NegInfinity = False"

instance ..

end

text \<open>Strict equality \<^verbatim>\<open>===\<close> of two numbers: \<open>NaN\<close> equals nothing.\<close>

fun js_eq :: "jsnum \<Rightarrow> jsnum \<Rightarrow> bool" where
  "js_eq NaN _ = False"
| "js_eq _ NaN = False"
| "js_eq x y = (x = y)"

fun isNaN :: "jsnum \<Rightarrow> bool" where
  "isNaN NaN = True"
| "isNaN _ = False"

text \<open>\<^verbatim>\<open>Math.floor\<close> and \<^verbatim>\<open>Math.cos\<close>.\<close>

fun js_floor :: "jsnum \<Rightarrow> jsnum" where
  "js_floor (Fin a) = Fin (of_int \<lfloor>a\<rfloor>)"
| "js_floor x = x"

fun js_cos :: "jsnum \<Rightarrow> jsnum" where
  "js_cos (Fin a) = Fin (cos a)"
| "js_cos _ = NaN"

text \<open>
  The remainder operator \<^verbatim>\<open>%\<close>: the quotient is truncated towards zero, so the result
  has the sign of the dividend.
\<close>

definition trunc :: "real \<Rightarrow> int" where
  "trunc x = (if 0 \<le> x then \<lfloor>x\<rfloor> else \<lceil>x\<rceil>)"

definition fmod :: "real \<Rightarrow> real \<Rightarrow> real" where
  "fmod a b = a - b * of_int (trunc (a / b))"

fun js_rem :: "jsnum \<Rightarrow> jsnum \<Rightarrow> jsnum" where
  "js_rem (Fin a) (Fin b) = (if b = 0 then NaN else Fin (fmod a b))"
| "js_rem NaN _ = NaN"
| "js_rem _ NaN = NaN"
| "js_rem (Fin a) _ = Fin a"
| "js_rem PosInfinity _ = NaN"
| "js_rem NegInfinity _ = NaN"

text \<open>
  A number in a template literal. An integer below \<open>2\<^sup>5\<^sup>3\<close> in magnitude is a double and
  prints as its decimal digits. For any other finite value ECMAScript prints the shortest
  digits that read back as the same double (so \<open>2\<^sup>6\<^sup>0\<close> prints with three final zeros),
  which depend on the binary representation: they are the parameter \<open>fmt\<close>.
\<close>

definition digit :: "nat \<Rightarrow> char" where
  "digit n = ''0123456789'' ! n"

function decimal :: "nat \<Rightarrow> string" where
  "decimal n = (if n < 10 then [digit n] else decimal (n div 10) @ [digit (n mod 10)])"
  by pat_completeness auto
termination
  by (relation "measure (\<lambda>n. n)") auto

definition Number_toString :: "(real \<Rightarrow> string) \<Rightarrow> jsnum \<Rightarrow> string" where
  "Number_toString fmt x =
     (case x of
        NaN \<Rightarrow> ''NaN''
      | PosInfinity \<Rightarrow> ''Infinity''
      | NegInfinity \<Rightarrow> ''-Infinity''
      | Fin a \<Rightarrow>
          if a \<in> \<int> \<and> \<bar>a\<bar> < 9007199254740992
          then (if a < 0 then ''-'' else '''') @ decimal (nat \<bar>\<lfloor>a\<rfloor>\<bar>)
          else fmt a)"

section \<open>Errors\<close>

text \<open>
  Every \<^verbatim>\<open>throw new Error(...)\<close> of the source is a value: one constructor for each
  message. The specification calls the first four \<open>InvalidInput\<close> and the last
  \<open>PhaseNotFound\<close>.
\<close>

datatype error =
    InvalidDateProvided string
  | InvalidDateParameters
  | PhaseOutOfRange
  | DaysNotANumber
  | PhaseNotFound string

fun InvalidInput :: "error \<Rightarrow> bool" where
  "InvalidInput (PhaseNotFound _) = False"
| "InvalidInput _ = True"

section \<open>The calculator on numbers\<close>

text \<open>\<^verbatim>\<open>julianDay\<close>; the caller passes all six arguments.\<close>

definition julianDay ::
  "jsnum \<Rightarrow> jsnum \<Rightarrow> jsnum \<Rightarrow> jsnum \<Rightarrow> jsnum \<Rightarrow> jsnum \<Rightarrow> error + jsnum" where
  "julianDay year month day hour minute second =
     (if year < Fin (- 4712) \<or> month < Fin 1 \<or> month > Fin 12 \<or> day < Fin 1 \<or> day > Fin 31
      then Inl InvalidDateParameters
      else
        let (year, month) =
              (if month \<le> Fin 2 then (year - Fin 1, month + Fin 12) else (year, month));
            a = js_floor (year / Fin 100);
            b = Fin 2 - a + js_floor (a / Fin 4);
            dayFraction = (hour + minute / Fin 60 + second / Fin 3600) / Fin 24
        in Inr (js_floor (Fin 365.25 * (year + Fin 4716))
                + js_floor (Fin 30.6001 * (month + Fin 1))
                + day + dayFraction + b - Fin 1524.5))"

definition phaseName :: "jsnum \<Rightarrow> error + string" where
  "phaseName phase =
     (if phase < Fin 0 \<or> phase > Fin 1 then Inl PhaseOutOfRange
      else if phase < Fin 0.0625 then Inr ''New Moon''
      else if phase < Fin 0.1875 then Inr ''Waxing Crescent''
      else if phase < Fin 0.3125 then Inr ''First Quarter''
      else if phase < Fin 0.4375 then Inr ''Waxing Gibbous''
      else if phase < Fin 0.5625 then Inr ''Full Moon''
      else if phase < Fin 0.6875 then Inr ''Waning Gibbous''
      else if phase < Fin 0.8125 then Inr ''Last Quarter''
      else if phase < Fin 0.9375 then Inr ''Waning Crescent''
      else Inr ''New Moon'')"

definition illumination :: "jsnum \<Rightarrow> error + jsnum" where
  "illumination phase =
     (if phase < Fin 0 \<or> phase > Fin 1 then Inl PhaseOutOfRange
      else Inr (\<bar>js_cos (phase * Fin 2 * Fin pi)\<bar> * Fin 100))"

text \<open>
  \<^verbatim>\<open>formatRelativeTime\<close>; the argument has the type \<^verbatim>\<open>number\<close>, so of the guard
  \<^verbatim>\<open>typeof days !== 'number' || isNaN(days)\<close> the second test decides.
\<close>

definition formatRelativeTime :: "(real \<Rightarrow> string) \<Rightarrow> jsnum \<Rightarrow> error + string" where
  "formatRelativeTime fmt days =
     (if isNaN days then Inl DaysNotANumber
      else if js_eq days (Fin 0) then Inr ''Today''
      else if js_eq days (Fin 1) then Inr ''Tomorrow''
      else if js_eq days (Fin (- 1)) then Inr ''Yesterday''
      else if days > Fin 0 then Inr (''In '' @ Number_toString fmt days @ '' days'')
      else Inr (Number_toString fmt \<bar>days\<bar> @ '' days ago''))"

section \<open>Dates\<close>

text \<open>
  A \<^verbatim>\<open>Date\<close> holds a time value: a whole number of milliseconds since the epoch, at
  most \<open>8.64 \<times> 10\<^sup>1\<^sup>5\<close> in magnitude, or \<open>NaN\<close> (an invalid date). The local time zone
  is a fixed offset \<open>tz\<close> in milliseconds (no daylight saving), and the calendar is the
  proleptic Gregorian one of ECMAScript: a day number is split into 400-year eras that
  begin on 1 March, then centuries, 4-year cycles and years.
\<close>

datatype Date = InvalidDate | Time int

fun getTime :: "Date \<Rightarrow> jsnum" where
  "getTime InvalidDate = NaN"
| "getTime (Time t) = Fin (of_int t)"

text \<open>\<^verbatim>\<open>new Date(value)\<close> for a number: \<open>TimeClip\<close>.\<close>

fun newDate :: "jsnum \<Rightarrow> Date" where
  "newDate (Fin a) = (if \<bar>a\<bar> \<le> 8640000000000000 then Time (trunc a) else InvalidDate)"
| "newDate _ = InvalidDate"

definition msPerDay :: int where
  "msPerDay = 86400000"

definition Day :: "int \<Rightarrow> int" where
  "Day t = t div msPerDay"

text \<open>The year that begins on 1 March and the day within it, of a day number.\<close>

definition yearDay :: "int \<Rightarrow> int \<times> int" where
  "yearDay days =
     (let z = days + 719468;
          n400 = z div 146097;
          r400 = z mod 146097;
          n100 = min 3 (r400 div 36524);
          r100 = r400 - 36524 * n100;
          n4 = r100 div 1461;
          r4 = r100 mod 1461;
          n1 = min 3 (r4 div 365)
      in (400 * n400 + 100 * n100 + 4 * n4 + n1, r4 - 365 * n1))"

text \<open>The year, the month (from 0) and the day of the month of a day number.\<close>

definition civil :: "int \<Rightarrow> int \<times> int \<times> int" where
  "civil days =
     (let (y, doy) = yearDay days;
          mp = (5 * doy + 2) div 153;
          d = doy - (153 * mp + 2) div 5 + 1;
          m = (if mp < 10 then mp + 3 else mp - 9)
      in (if m \<le> 2 then y + 1 else y, m - 1, d))"

definition YearFromTime :: "int \<Rightarrow> int" where
  "YearFromTime t = fst (civil (Day t))"

definition MonthFromTime :: "int \<Rightarrow> int" where
  "MonthFromTime t = fst (snd (civil (Day t)))"

definition DateFromTime :: "int \<Rightarrow> int" where
  "DateFromTime t = snd (snd (civil (Day t)))"

definition HourFromTime :: "int \<Rightarrow> int" where
  "HourFromTime t = (t div 3600000) mod 24"

definition MinFromTime :: "int \<Rightarrow> int" where
  "MinFromTime t = (t div 60000) mod 60"

definition SecFromTime :: "int \<Rightarrow> int" where
  "SecFromTime t = (t div 1000) mod 60"

text \<open>A getter of a local component: \<open>NaN\<close> on an invalid date.\<close>

fun localField :: "(int \<Rightarrow> int) \<Rightarrow> int \<Rightarrow> Date \<Rightarrow> jsnum" where
  "localField f tz InvalidDate = NaN"
| "localField f tz (Time t) = Fin (of_int (f (t + tz)))"

definition getFullYear :: "int \<Rightarrow> Date \<Rightarrow> jsnum" where
  "getFullYear = localField YearFromTime"

definition getMonth :: "int \<Rightarrow> Date \<Rightarrow> jsnum" where
  "getMonth = localField MonthFromTime"

definition getDate :: "int \<Rightarrow> Date \<Rightarrow> jsnum" where
  "getDate = localField DateFromTime"

definition getHours :: "int \<Rightarrow> Date \<Rightarrow> jsnum" where
  "getHours = localField HourFromTime"

definition getMinutes :: "int \<Rightarrow> Date \<Rightarrow> jsnum" where
  "getMinutes = localField MinFromTime"

definition getSeconds :: "int \<Rightarrow> Date \<Rightarrow> jsnum" where
  "getSeconds = localField SecFromTime"

text \<open>
  \<^verbatim>\<open>d.setHours(d.getHours() + n)\<close> and \<^verbatim>\<open>d.setDate(d.getDate() + n)\<close>: the fields are
  renormalised, so with a fixed offset the time value moves by \<open>n\<close> hours or days, and
  the result is clipped as every time value is.
\<close>

definition addHours :: "Date \<Rightarrow> int \<Rightarrow> Date" where
  "addHours d n = newDate (getTime d + Fin (of_int (n * 3600000)))"

definition addDays :: "Date \<Rightarrow> int \<Rightarrow> Date" where
  "addDays d n = newDate (getTime d + Fin (of_int (n * msPerDay)))"

section \<open>The calculator on dates\<close>

definition validateDate :: "Date \<Rightarrow> string \<Rightarrow> error + unit" where
  "validateDate date paramName =
     (if isNaN (getTime date) then Inl (InvalidDateProvided paramName) else Inr ())"

definition moonPhase :: "int \<Rightarrow> Date \<Rightarrow> error + jsnum" where
  "moonPhase tz date =
     (case validateDate date ''date'' of
        Inl e \<Rightarrow> Inl e
      | Inr _ \<Rightarrow>
          let year = getFullYear tz date;
              month = getMonth tz date + Fin 1;
              day = getDate tz date;
              hour = getHours tz date;
              minute = getMinutes tz date;
              second = getSeconds tz date
          in (case julianDay year month day hour minute second of
                Inl e \<Rightarrow> Inl e
              | Inr jd \<Rightarrow>
                  let newMoonJD = Fin 2451549.5;
                      synodicMonth = Fin 29.53058868;
                      phase = js_rem (jd - newMoonJD) synodicMonth / synodicMonth
                  in Inr (if phase < Fin 0 then phase + Fin 1 else phase)))"

text \<open>The distance of a phase to the target around the cycle, as both searches take it.\<close>

definition wrappedDiff :: "jsnum \<Rightarrow> jsnum \<Rightarrow> jsnum" where
  "wrappedDiff phase targetPhase =
     (let diff = \<bar>phase - targetPhase\<bar>
      in if diff > Fin 0.5 then Fin 1 - diff else diff)"

function refineLoop :: "int \<Rightarrow> Date \<Rightarrow> jsnum \<Rightarrow> int \<Rightarrow> Date \<Rightarrow> jsnum \<Rightarrow> error + Date" where
  "refineLoop tz approximateDate targetPhase minutes bestDate bestDiff =
     (if minutes \<le> 720 then
        let testDate = newDate (getTime approximateDate + Fin (of_int minutes) * Fin 60 * Fin 1000)
        in case moonPhase tz testDate of
             Inl e \<Rightarrow> Inl e
           | Inr phase \<Rightarrow>
               let diff = wrappedDiff phase targetPhase
               in if diff < bestDiff
                  then refineLoop tz approximateDate targetPhase (minutes + 30) testDate diff
                  else refineLoop tz approximateDate targetPhase (minutes + 30) bestDate bestDiff
      else Inr bestDate)"
  by pat_completeness auto
termination
  by (relation "measure (\<lambda>(tz, a, p, minutes, d, b). nat (721 - minutes))") auto

definition refinePhaseDate :: "int \<Rightarrow> Date \<Rightarrow> jsnum \<Rightarrow> error + Date" where
  "refinePhaseDate tz approximateDate targetPhase =
     (case moonPhase tz approximateDate of
        Inl e \<Rightarrow> Inl e
      | Inr phase \<Rightarrow>
          refineLoop tz approximateDate targetPhase (- 720) approximateDate
            (wrappedDiff phase targetPhase))"

definition maxDays :: jsnum where
  "maxDays = Fin 29.53 + Fin 1"

function scanLoop ::
  "int \<Rightarrow> Date \<Rightarrow> jsnum \<Rightarrow> string \<Rightarrow> int \<Rightarrow> Date \<Rightarrow> jsnum \<Rightarrow> error + Date" where
  "scanLoop tz date targetPhase label hours bestDate bestDiff =
     (if Fin (of_int hours) < maxDays * Fin 24 then
        let currentDate = newDate (getTime date + Fin (of_int hours) * Fin 60 * Fin 60 * Fin 1000)
        in case moonPhase tz currentDate of
             Inl e \<Rightarrow> Inl e
           | Inr phase \<Rightarrow>
               let diff = wrappedDiff phase targetPhase;
                   (bestDiff, bestDate) =
                     (if diff < bestDiff then (diff, currentDate) else (bestDiff, bestDate))
               in if bestDiff < Fin 0.02 then refinePhaseDate tz bestDate targetPhase
                  else scanLoop tz date targetPhase label (hours + 2) bestDate bestDiff
      else if bestDiff < Fin 0.1 then refinePhaseDate tz bestDate targetPhase
      else Inl (PhaseNotFound label))"
  by pat_completeness auto
termination
  by (relation "measure (\<lambda>(tz, d, p, n, hours, b, f). nat (733 - hours))")
     (auto simp: maxDays_def)

definition findNextPhase :: "int \<Rightarrow> Date \<Rightarrow> jsnum \<Rightarrow> string \<Rightarrow> error + Date" where
  "findNextPhase tz fromDate targetPhase label =
     (let date = addHours fromDate 1
      in scanLoop tz date targetPhase label 0 date (Fin 1))"

definition nextNewMoon :: "int \<Rightarrow> Date \<Rightarrow> error + Date" where
  "nextNewMoon tz fromDate =
     (case validateDate fromDate ''fromDate'' of
        Inl e \<Rightarrow> Inl e
      | Inr _ \<Rightarrow> findNextPhase tz fromDate (Fin 0) ''new moon'')"

definition nextFullMoon :: "int \<Rightarrow> Date \<Rightarrow> error + Date" where
  "nextFullMoon tz fromDate =
     (case validateDate fromDate ''fromDate'' of
        Inl e \<Rightarrow> Inl e
      | Inr _ \<Rightarrow> findNextPhase tz fromDate (Fin 0.5) ''full moon'')"

text \<open>
  \<^verbatim>\<open>findPhaseEvents\<close>. The classification of one day from its phase and the phases of
  the days before and after is the \<^verbatim>\<open>if\<close> chain of the loop body; the empty string is
  the falsy value that keeps the day out of the result.
\<close>

record PhaseEvent =
  date :: Date
  type :: string
  phase :: jsnum

definition phaseType :: "jsnum \<Rightarrow> jsnum \<Rightarrow> jsnum \<Rightarrow> string" where
  "phaseType ph prevPhase nextPhase =
     (if ph < Fin 0.05 \<and> (prevPhase > Fin 0.95 \<or> nextPhase > Fin 0.05) then ''new-moon''
      else if \<bar>ph - Fin 0.5\<bar> < Fin 0.05 \<and>
              (\<bar>prevPhase - Fin 0.5\<bar> > Fin 0.05 \<or> \<bar>nextPhase - Fin 0.5\<bar> > Fin 0.05)
      then ''full-moon''
      else if \<bar>ph - Fin 0.25\<bar> < Fin 0.05 \<and>
              (\<bar>prevPhase - Fin 0.25\<bar> > Fin 0.05 \<or> \<bar>nextPhase - Fin 0.25\<bar> > Fin 0.05)
      then ''quarter''
      else if \<bar>ph - Fin 0.75\<bar> < Fin 0.05 \<and>
              (\<bar>prevPhase - Fin 0.75\<bar> > Fin 0.05 \<or> \<bar>nextPhase - Fin 0.75\<bar> > Fin 0.05)
      then ''quarter''
      else [])"

function eventsLoop ::
  "int \<Rightarrow> Date \<Rightarrow> Date \<Rightarrow> jsnum \<Rightarrow> Date \<Rightarrow> PhaseEvent list \<Rightarrow> error + PhaseEvent list" where
  "eventsLoop tz startDate endDate endTime searchDate events =
     (if getTime searchDate \<le> endTime then
        case moonPhase tz searchDate of
          Inl e \<Rightarrow> Inl e
        | Inr ph \<Rightarrow>
            (case moonPhase tz (addDays searchDate (- 1)) of
               Inl e \<Rightarrow> Inl e
             | Inr prevPhase \<Rightarrow>
                 (case moonPhase tz (addDays searchDate 1) of
                    Inl e \<Rightarrow> Inl e
                  | Inr nextPhase \<Rightarrow>
                      let ty = phaseType ph prevPhase nextPhase;
                          events =
                            (if ty \<noteq> [] \<and> getTime searchDate \<ge> getTime startDate
                                \<and> getTime searchDate \<le> getTime endDate
                             then events @ [\<lparr>date = searchDate, type = ty, phase = ph\<rparr>]
                             else events)
                      in eventsLoop tz startDate endDate endTime (addDays searchDate 1) events))
      else Inr events)"
  by pat_completeness auto
termination
proof (relation "measure (\<lambda>(tz, s, e, endTime, searchDate, evs).
          case searchDate of InvalidDate \<Rightarrow> 0 | Time t \<Rightarrow> nat (8640000000000001 - t) + 1)",
       goal_cases)
  case 1
  show ?case by simp
next
  case (2 tz startDate endDate endTime searchDate events ph prevPhase nextPhase ty evs)
  from 2(1) obtain t where t: "searchDate = Time t"
    by (cases searchDate) auto
  show ?case
    by (simp add: t addDays_def msPerDay_def trunc_def)
qed

definition findPhaseEvents :: "int \<Rightarrow> Date \<Rightarrow> Date \<Rightarrow> error + PhaseEvent list" where
  "findPhaseEvents tz startDate endDate =
     (case validateDate startDate ''startDate'' of
        Inl e \<Rightarrow> Inl e
      | Inr _ \<Rightarrow>
          (case validateDate endDate ''endDate'' of
             Inl e \<Rightarrow> Inl e
           | Inr _ \<Rightarrow>
               let searchDate = addDays startDate (- 2);
                   endTime = getTime endDate + Fin (2 * 24 * 60 * 60 * 1000)
               in eventsLoop tz startDate endDate endTime searchDate []))"

section \<open>The formula of the specification\<close>

text \<open>
  The Julian Day as the specification words it, on real arguments: January and February
  count as months 13 and 14 of the year before, \<open>a\<close> is the century and \<open>b\<close> the
  Gregorian correction.
\<close>

definition julianDay_spec :: "real \<Rightarrow> real \<Rightarrow> real \<Rightarrow> real \<Rightarrow> real \<Rightarrow> real \<Rightarrow> real" where
  "julianDay_spec year month day hour minute second =
     (let y = (if month \<le> 2 then year - 1 else year);
          m = (if month \<le> 2 then month + 12 else month);
          a = \<lfloor>y / 100\<rfloor>;
          b = 2 - a + \<lfloor>of_int a / (4::real)\<rfloor>
      in of_int \<lfloor>365.25 * (y + 4716)\<rfloor> + of_int \<lfloor>30.6001 * (m + 1)\<rfloor> + day
         + (hour + minute / 60 + second / 3600) / 24 + of_int b - 1524.5)"

text \<open>
  The Julian Day of the local calendar fields of a time value, and the phase of a Julian
  Day as the specification words it: the remainder by the synodic month over the synodic
  month, with 1 added when the remainder is negative.
\<close>

definition localJD :: "int \<Rightarrow> int \<Rightarrow> real" where
  "localJD tz t =
     julianDay_spec (of_int (YearFromTime (t + tz))) (of_int (MonthFromTime (t + tz)) + 1)
       (of_int (DateFromTime (t + tz))) (of_int (HourFromTime (t + tz)))
       (of_int (MinFromTime (t + tz))) (of_int (SecFromTime (t + tz)))"

definition phase_spec :: "real \<Rightarrow> real" where
  "phase_spec jd =
     (let m = fmod (jd - 2451549.5) 29.53058868
      in if m < 0 then m / 29.53058868 + 1 else m / 29.53058868)"

text \<open>
  The distance of two phases around the cycle, on reals; the instant the coarse scan probes
  after \<open>hours\<close> hours; and the scan that misses its target: each of its 367 probes, two
  hours apart from one hour after the start, has a phase, and that phase is at least
  \<open>0.1\<close> away from the target.
\<close>

definition circDist :: "real \<Rightarrow> real \<Rightarrow> real" where
  "circDist p q = (let d = \<bar>p - q\<bar> in if d > 0.5 then 1 - d else d)"

definition probeDate :: "Date \<Rightarrow> int \<Rightarrow> Date" where
  "probeDate d hours = newDate (getTime d + Fin (of_int hours) * Fin 60 * Fin 60 * Fin 1000)"

definition scanMisses :: "int \<Rightarrow> Date \<Rightarrow> real \<Rightarrow> bool" where
  "scanMisses tz fromDate q =
     (\<forall>j\<in>{0..366}. \<exists>p. moonPhase tz (probeDate (addHours fromDate 1) (2 * j)) = Inr (Fin p)
        \<and> 0.1 \<le> circDist p q)"

text \<open>
  The events of a result in chronological order, an event within the range asked for, and
  the measure along which the day-by-day scan of \<^verbatim>\<open>findPhaseEvents\<close> ends.
\<close>

definition chronological :: "PhaseEvent list \<Rightarrow> bool" where
  "chronological evs = sorted_wrt (\<lambda>a b. getTime (date a) < getTime (date b)) evs"

definition inRange :: "Date \<Rightarrow> Date \<Rightarrow> PhaseEvent \<Rightarrow> bool" where
  "inRange startDate endDate ev \<longleftrightarrow>
     getTime startDate \<le> getTime (date ev) \<and> getTime (date ev) \<le> getTime endDate"

definition loopMeasure :: "Date \<Rightarrow> nat" where
  "loopMeasure d = (case d of InvalidDate \<Rightarrow> 0 | Time t \<Rightarrow> nat (8640000000000001 - t) + 1)"

section \<open>Finite numbers\<close>

lemma Fin_minus [simp]: "Fin a - Fin b = Fin (a - b)"
  by (simp add: minus_jsnum_def)

declare decimal.simps [simp del]

lemma decimal_digit: "n < 10 \<Longrightarrow> decimal n = [digit n]"
  by (simp add: decimal.simps)

lemma decimal_step: "10 \<le> n \<Longrightarrow> decimal n = decimal (n div 10) @ [digit (n mod 10)]"
  by (subst decimal.simps) simp

section \<open>julianDay\<close>

lemma julianDay_Fin:
  "julianDay (Fin y) (Fin m) (Fin d) (Fin h) (Fin mi) (Fin s) =
     (if y < - 4712 \<or> m < 1 \<or> 12 < m \<or> d < 1 \<or> 31 < d then Inl InvalidDateParameters
      else Inr (Fin (julianDay_spec y m d h mi s)))"
  by (simp add: julianDay_def julianDay_spec_def Let_def)

text \<open>
  C1. On finite arguments that pass the validation (year at least \<open>-4712\<close>, month in
  \<open>[1, 12]\<close>, day in \<open>[1, 31]\<close>) \<^verbatim>\<open>julianDay\<close> returns the value of the specification's
  formula, and \<^verbatim>\<open>julianDay(2000, 1, 1, 12, 0, 0)\<close> is exactly \<open>2451545\<close>.
\<close>

theorem julianDay_formula:
  "(- 4712 \<le> year \<and> 1 \<le> month \<and> month \<le> 12 \<and> 1 \<le> day \<and> day \<le> 31 \<longrightarrow>
      julianDay (Fin year) (Fin month) (Fin day) (Fin hour) (Fin minute) (Fin second) =
        Inr (Fin (julianDay_spec year month day hour minute second)))
   \<and> julianDay (Fin 2000) (Fin 1) (Fin 1) (Fin 12) (Fin 0) (Fin 0) = Inr (Fin 2451545)"
  by (simp add: julianDay_Fin julianDay_spec_def Let_def)

theorem julianDay_formula_witness:
  "- 4712 \<le> (2024::real) \<and> (1::real) \<le> 3 \<and> (3::real) \<le> 12 \<and> (1::real) \<le> 15 \<and> (15::real) \<le> 31
   \<and> julianDay (Fin 2024) (Fin 3) (Fin 15) (Fin 6) (Fin 30) (Fin 0) = Inr (Fin (118098469 / 48))"
  using julianDay_formula [of 2024 3 15 6 30 0]
  by (simp add: julianDay_spec_def Let_def)

text \<open>
  C8, as the code has it. When year, month and day are numbers (not \<open>NaN\<close>), \<^verbatim>\<open>julianDay\<close>
  fails exactly when the month is outside \<open>[1, 12]\<close>, the day outside \<open>[1, 31]\<close> or the
  year below \<open>-4712\<close>, the infinities included; its only error is that one; and it
  fails on month 13. Hour, minute and second are not looked at.
\<close>

theorem julianDay_rejects:
  "(\<not> isNaN year \<and> \<not> isNaN month \<and> \<not> isNaN day \<longrightarrow>
      (julianDay year month day hour minute second = Inl InvalidDateParameters
         \<longleftrightarrow> \<not> (Fin 1 \<le> month \<and> month \<le> Fin 12 \<and> Fin 1 \<le> day \<and> day \<le> Fin 31
                \<and> Fin (- 4712) \<le> year)))
   \<and> (julianDay year month day hour minute second = Inl e \<longrightarrow>
        e = InvalidDateParameters \<and> InvalidInput e)
   \<and> julianDay (Fin 2000) (Fin 13) (Fin 1) (Fin 0) (Fin 0) (Fin 0) = Inl InvalidDateParameters"
proof -
  have lt: "x < y \<longleftrightarrow> \<not> y \<le> x" if "\<not> isNaN x" "\<not> isNaN y" for x y :: jsnum
    using that by (cases x; cases y) auto
  have a: "\<not> isNaN year \<and> \<not> isNaN month \<and> \<not> isNaN day \<longrightarrow>
      (julianDay year month day hour minute second = Inl InvalidDateParameters
         \<longleftrightarrow> \<not> (Fin 1 \<le> month \<and> month \<le> Fin 12 \<and> Fin 1 \<le> day \<and> day \<le> Fin 31
                \<and> Fin (- 4712) \<le> year))"
    by (auto simp: julianDay_def Let_def lt split: prod.splits)
  have b: "julianDay year month day hour minute second = Inl e \<longrightarrow>
        e = InvalidDateParameters \<and> InvalidInput e"
    by (auto simp: julianDay_def Let_def split: prod.splits if_splits)
  have c: "julianDay (Fin 2000) (Fin 13) (Fin 1) (Fin 0) (Fin 0) (Fin 0) = Inl InvalidDateParameters"
    by (simp add: julianDay_def)
  from a b c show ?thesis by blast
qed

theorem julianDay_rejects_witness:
  "\<not> isNaN NegInfinity \<and> \<not> isNaN (Fin 6) \<and> \<not> isNaN (Fin 15)
   \<and> julianDay NegInfinity (Fin 6) (Fin 15) NaN (Fin 0) (Fin 0) = Inl InvalidDateParameters
   \<and> julianDay (Fin 2000) (Fin 6) (Fin 15) NaN (Fin 0) (Fin 0) \<noteq> Inl InvalidDateParameters"
  using julianDay_rejects [of NegInfinity "Fin 6" "Fin 15" NaN "Fin 0" "Fin 0"]
    julianDay_rejects [of "Fin 2000" "Fin 6" "Fin 15" NaN "Fin 0" "Fin 0"]
  by simp

text \<open>
  C8 as stated fails: an infinite hour is a non-finite argument, and it is not rejected.
\<close>

theorem julianDay_accepts_infinite_hour:
  "julianDay (Fin 2000) (Fin 1) (Fin 1) PosInfinity (Fin 0) (Fin 0) = Inr PosInfinity"
  by (simp add: julianDay_def minus_jsnum_def)

lemma julianDay_NaN_year: "julianDay NaN (Fin 1) (Fin 1) (Fin 0) (Fin 0) (Fin 0) = Inr NaN"
  by (simp add: julianDay_def minus_jsnum_def)

section \<open>phaseName and illumination\<close>

text \<open>
  \<^verbatim>\<open>phaseName\<close> fails on every number below 0 or above 1 (so on 1.5 and on the
  infinities), and on a phase in \<open>[0, 1]\<close> it returns the label of the band of the
  nine-way table that holds the phase.
\<close>

lemma phaseName_bands:
  "(p < Fin 0 \<or> p > Fin 1 \<longrightarrow> phaseName p = Inl PhaseOutOfRange \<and> InvalidInput PhaseOutOfRange)
   \<and> phaseName (Fin 1.5) = Inl PhaseOutOfRange
   \<and> (0 \<le> x \<and> x \<le> 1 \<longrightarrow>
        phaseName (Fin x) = Inr
          (if x < 0.0625 \<or> 0.9375 \<le> x then ''New Moon''
           else if x < 0.1875 then ''Waxing Crescent''
           else if x < 0.3125 then ''First Quarter''
           else if x < 0.4375 then ''Waxing Gibbous''
           else if x < 0.5625 then ''Full Moon''
           else if x < 0.6875 then ''Waning Gibbous''
           else if x < 0.8125 then ''Last Quarter''
           else ''Waning Crescent''))"
  by (simp add: phaseName_def)

lemma phaseName_bands_example:
  "Fin 1 < PosInfinity \<and> phaseName PosInfinity = Inl PhaseOutOfRange
   \<and> (0::real) \<le> 0.7 \<and> (0.7::real) \<le> 1 \<and> phaseName (Fin 0.7) = Inr ''Last Quarter''"
  using phaseName_bands [of PosInfinity "0.7"]
  by simp

text \<open>
  C6. \<open>NaN\<close> is a phase outside \<open>[0, 1]\<close>: it is not both at least 0 and at most 1. The
  guard of \<^verbatim>\<open>phaseName\<close> compares, every comparison with \<open>NaN\<close> is false, and so
  \<^verbatim>\<open>phaseName\<close> does not fail on it: it falls through every band to the last label.
\<close>

theorem phaseName_accepts_NaN:
  "\<not> (Fin 0 \<le> NaN \<and> NaN \<le> Fin 1) \<and> phaseName NaN = Inr ''New Moon''"
  by (simp add: phaseName_def)

text \<open>
  On a phase in \<open>[0, 1]\<close> \<^verbatim>\<open>illumination\<close> is \<open>|cos (2\<pi> phase)| \<times> 100\<close>, a value in
  \<open>[0, 100]\<close>; it is 100 at the phases 0 and 0.5; and it fails on every number below 0 or
  above 1.
\<close>

lemma illumination_formula:
  "(0 \<le> x \<and> x \<le> 1 \<longrightarrow>
      illumination (Fin x) = Inr (Fin (\<bar>cos (x * 2 * pi)\<bar> * 100))
      \<and> 0 \<le> \<bar>cos (x * 2 * pi)\<bar> * 100 \<and> \<bar>cos (x * 2 * pi)\<bar> * 100 \<le> 100)
   \<and> illumination (Fin 0) = Inr (Fin 100)
   \<and> illumination (Fin 0.5) = Inr (Fin 100)
   \<and> (p < Fin 0 \<or> p > Fin 1 \<longrightarrow>
        illumination p = Inl PhaseOutOfRange \<and> InvalidInput PhaseOutOfRange)"
  by (simp add: illumination_def abs_le_iff)

lemma illumination_formula_example:
  "(0::real) \<le> 1 \<and> illumination (Fin 1) = Inr (Fin 100)
   \<and> Fin (- 1) < Fin 0 \<and> illumination (Fin (- 1)) = Inl PhaseOutOfRange"
  using illumination_formula [of 1 "Fin (- 1)"]
  by simp

text \<open>
  C7. \<open>NaN\<close> is a phase outside \<open>[0, 1]\<close>, and \<^verbatim>\<open>illumination\<close> does not fail on it: the
  guard lets it through, and the value returned is \<open>NaN\<close>, which is not a value between
  0 and 100 either.
\<close>

theorem illumination_accepts_NaN:
  "\<not> (Fin 0 \<le> NaN \<and> NaN \<le> Fin 1) \<and> illumination NaN = Inr NaN
   \<and> \<not> (Fin 0 \<le> NaN \<and> NaN \<le> Fin 100)"
  by (simp add: illumination_def)

section \<open>formatRelativeTime\<close>

text \<open>
  C9, as the code has it. The three literals, \<open>In n days\<close> for any other positive number
  and \<open>|n| days ago\<close> for any other negative one; the error is raised exactly on \<open>NaN\<close>,
  and the infinities are formatted like any other number.
\<close>

theorem formatRelativeTime_cases:
  "formatRelativeTime fmt (Fin 0) = Inr ''Today''
   \<and> formatRelativeTime fmt (Fin 1) = Inr ''Tomorrow''
   \<and> formatRelativeTime fmt (Fin (- 1)) = Inr ''Yesterday''
   \<and> (0 < n \<and> n \<noteq> 1 \<longrightarrow>
        formatRelativeTime fmt (Fin n) = Inr (''In '' @ Number_toString fmt (Fin n) @ '' days''))
   \<and> (n < 0 \<and> n \<noteq> - 1 \<longrightarrow>
        formatRelativeTime fmt (Fin n) = Inr (Number_toString fmt (Fin \<bar>n\<bar>) @ '' days ago''))
   \<and> formatRelativeTime fmt (Fin 5) = Inr ''In 5 days''
   \<and> formatRelativeTime fmt (Fin (- 3)) = Inr ''3 days ago''
   \<and> (formatRelativeTime fmt days = Inl DaysNotANumber \<longleftrightarrow> days = NaN)
   \<and> InvalidInput DaysNotANumber
   \<and> formatRelativeTime fmt PosInfinity = Inr ''In Infinity days''
   \<and> formatRelativeTime fmt NegInfinity = Inr ''Infinity days ago''"
proof -
  have nan: "formatRelativeTime fmt days = Inl DaysNotANumber \<longleftrightarrow> days = NaN"
    by (cases days) (simp_all add: formatRelativeTime_def)
  show ?thesis
    unfolding nan
    by (simp add: formatRelativeTime_def Number_toString_def decimal_digit digit_def)
qed

theorem formatRelativeTime_cases_witness:
  "(0::real) < 7 \<and> (7::real) \<noteq> 1 \<and> formatRelativeTime (\<lambda>a. []) (Fin 7) = Inr ''In 7 days''
   \<and> (- 12::real) < 0 \<and> (- 12::real) \<noteq> - 1
   \<and> formatRelativeTime (\<lambda>a. []) (Fin (- 12)) = Inr ''12 days ago''
   \<and> formatRelativeTime (\<lambda>a. []) NaN = Inl DaysNotANumber"
  using formatRelativeTime_cases [of "\<lambda>a. []" 7 NaN]
    formatRelativeTime_cases [of "\<lambda>a. []" "- 12" NaN]
  by (simp add: Number_toString_def decimal_digit decimal_step digit_def)

text \<open>
  C9 as stated fails: \<open>Infinity\<close> is not a finite number, and it is formatted, not
  rejected.
\<close>

theorem formatRelativeTime_Infinity:
  "formatRelativeTime (\<lambda>a. []) PosInfinity = Inr ''In Infinity days''"
  by (simp add: formatRelativeTime_def Number_toString_def)

section \<open>moonPhase\<close>

lemma fmod_bounds:
  assumes "0 < b"
  shows "- b < fmod a b" and "fmod a b < b"
proof -
  have lo: "of_int \<lfloor>a / b\<rfloor> * b \<le> a" and hi: "a < (of_int \<lfloor>a / b\<rfloor> + 1) * b"
    using assms by (rule floor_divide_lower, rule floor_divide_upper)
  have clo: "(of_int \<lceil>a / b\<rceil> - 1) * b < a" and chi: "a \<le> of_int \<lceil>a / b\<rceil> * b"
    using assms by (rule ceiling_divide_lower, rule ceiling_divide_upper)
  show "- b < fmod a b"
    using lo hi clo chi assms by (auto simp: fmod_def trunc_def algebra_simps)
  show "fmod a b < b"
    using lo hi clo chi assms by (auto simp: fmod_def trunc_def algebra_simps)
qed

lemma phase_spec_range: "0 \<le> phase_spec jd \<and> phase_spec jd < 1"
proof -
  have "- 29.53058868 < fmod (jd - 2451549.5) 29.53058868"
    and "fmod (jd - 2451549.5) 29.53058868 < 29.53058868"
    by (rule fmod_bounds, simp)+
  then show ?thesis
    by (auto simp: phase_spec_def Let_def)
qed

text \<open>The calendar fields are in range: the month in \<open>[0, 11]\<close>, the day in \<open>[1, 31]\<close>.\<close>

lemma doy_range:
  fixes r4 :: int
  assumes "0 \<le> r4" "r4 \<le> 1460"
  shows "0 \<le> r4 - 365 * min 3 (r4 div 365) \<and> r4 - 365 * min 3 (r4 div 365) \<le> 365"
proof -
  define q where "q = r4 div 365"
  have b: "365 * q \<le> r4" "r4 < 365 * q + 365"
    unfolding q_def by linarith+
  with assms have "0 \<le> q" "q \<le> 4"
    by linarith+
  then consider "q = 0" | "q = 1" | "q = 2" | "q = 3" | "q = 4"
    by atomize_elim arith
  then show ?thesis
    unfolding q_def [symmetric] using b assms by cases simp_all
qed

lemma yearDay_range: "0 \<le> snd (yearDay n) \<and> snd (yearDay n) \<le> 365"
proof -
  have "\<exists>x::int. snd (yearDay n) = x mod 1461 - 365 * min 3 (x mod 1461 div 365)"
    unfolding yearDay_def Let_def snd_conv by (rule exI, rule refl)
  then obtain x :: int where x: "snd (yearDay n) = x mod 1461 - 365 * min 3 (x mod 1461 div 365)"
    by blast
  have "0 \<le> x mod 1461" "x mod 1461 \<le> 1460"
    by simp_all
  from doy_range [OF this] show ?thesis
    unfolding x .
qed

lemma month_of_doy:
  fixes doy :: int
  assumes "0 \<le> doy" "doy \<le> 365"
  defines "mp \<equiv> (5 * doy + 2) div 153"
  shows "0 \<le> mp \<and> mp \<le> 11
    \<and> 1 \<le> doy - (153 * mp + 2) div 5 + 1 \<and> doy - (153 * mp + 2) div 5 + 1 \<le> 31"
proof -
  have b: "153 * mp \<le> 5 * doy + 2" "5 * doy + 2 < 153 * mp + 153"
    unfolding mp_def by linarith+
  with assms(1,2) have r: "0 \<le> mp" "mp \<le> 11"
    by linarith+
  then consider "mp = 0" | "mp = 1" | "mp = 2" | "mp = 3" | "mp = 4" | "mp = 5" | "mp = 6"
    | "mp = 7" | "mp = 8" | "mp = 9" | "mp = 10" | "mp = 11"
    by atomize_elim arith
  then show ?thesis
    using b assms(1,2) by cases simp_all
qed

lemma civil_ranges:
  "0 \<le> fst (snd (civil n))" "fst (snd (civil n)) \<le> 11"
  "1 \<le> snd (snd (civil n))" "snd (snd (civil n)) \<le> 31"
proof -
  obtain y doy where yd: "yearDay n = (y, doy)"
    by (cases "yearDay n")
  with yearDay_range [of n] have doy: "0 \<le> doy" "doy \<le> 365"
    by simp_all
  note md = month_of_doy [OF doy]
  show "0 \<le> fst (snd (civil n))" "fst (snd (civil n)) \<le> 11"
    "1 \<le> snd (snd (civil n))" "snd (snd (civil n)) \<le> 31"
    using md by (simp_all add: civil_def yd Let_def)
qed

lemma julianDay_local:
  "julianDay (getFullYear tz (Time t)) (getMonth tz (Time t) + Fin 1)
        (getDate tz (Time t)) (getHours tz (Time t)) (getMinutes tz (Time t))
        (getSeconds tz (Time t)) =
      (if YearFromTime (t + tz) < - 4712 then Inl InvalidDateParameters
       else Inr (Fin (localJD tz t)))"
proof -
  have "0 \<le> MonthFromTime (t + tz)" "MonthFromTime (t + tz) \<le> 11"
    and "1 \<le> DateFromTime (t + tz)" "DateFromTime (t + tz) \<le> 31"
    by (simp_all add: MonthFromTime_def DateFromTime_def civil_ranges)
  then show ?thesis
    by (simp add: getFullYear_def getMonth_def getDate_def getHours_def getMinutes_def
        getSeconds_def julianDay_Fin localJD_def)
qed

lemma moonPhase_Time:
  "moonPhase tz (Time t) =
     (if YearFromTime (t + tz) < - 4712 then Inl InvalidDateParameters
      else Inr (Fin (phase_spec (localJD tz t))))"
  unfolding moonPhase_def Let_def julianDay_local
  by (simp add: validateDate_def phase_spec_def Let_def zero_less_divide_iff divide_less_0_iff)

lemma moonPhase_Invalid: "moonPhase tz InvalidDate = Inl (InvalidDateProvided ''date'')"
  by (simp add: moonPhase_def validateDate_def)

lemma moonPhase_Inr:
  assumes "moonPhase tz d = Inr v"
  obtains t p where "d = Time t" "v = Fin p" "0 \<le> p" "p < 1" "- 4712 \<le> YearFromTime (t + tz)"
proof (cases d)
  case InvalidDate
  with assms show ?thesis
    by (simp add: moonPhase_Invalid)
next
  case (Time t)
  with assms have "v = Fin (phase_spec (localJD tz t))" "- 4712 \<le> YearFromTime (t + tz)"
    by (simp_all add: moonPhase_Time split: if_splits)
  with Time phase_spec_range [of "localJD tz t"] that show ?thesis
    by blast
qed

lemma moonPhase_Inl: "moonPhase tz d = Inl e \<Longrightarrow> InvalidInput e"
  by (cases d) (auto simp: moonPhase_Time moonPhase_Invalid split: if_splits)

text \<open>
  C2, as the code has it. For a valid date whose local year is at least \<open>-4712\<close> the
  Julian Day of the local fields exists and \<^verbatim>\<open>moonPhase\<close> returns its phase by the
  specification's formula; for a valid date of an earlier year it raises the error of
  \<^verbatim>\<open>julianDay\<close>. The formula's value, and so every value \<^verbatim>\<open>moonPhase\<close> returns, is at
  least 0 and below 1; and at a Julian Day of exactly \<open>2451549.5\<close> the phase is 0.
\<close>

theorem moonPhase_formula:
  "(- 4712 \<le> YearFromTime (t + tz) \<longrightarrow>
      julianDay (getFullYear tz (Time t)) (getMonth tz (Time t) + Fin 1)
        (getDate tz (Time t)) (getHours tz (Time t)) (getMinutes tz (Time t))
        (getSeconds tz (Time t)) = Inr (Fin (localJD tz t))
      \<and> moonPhase tz (Time t) = Inr (Fin (phase_spec (localJD tz t))))
   \<and> 0 \<le> phase_spec jd \<and> phase_spec jd < 1
   \<and> (moonPhase tz d = Inr v \<longrightarrow> (\<exists>p. v = Fin p \<and> 0 \<le> p \<and> p < 1))
   \<and> (- 4712 \<le> YearFromTime (t + tz) \<and> localJD tz t = 2451549.5 \<longrightarrow>
        moonPhase tz (Time t) = Inr (Fin 0))
   \<and> (YearFromTime (t + tz) < - 4712 \<longrightarrow> moonPhase tz (Time t) = Inl InvalidDateParameters)"
proof -
  have a: "moonPhase tz d = Inr v \<longrightarrow> (\<exists>p. v = Fin p \<and> 0 \<le> p \<and> p < 1)"
    by (auto elim: moonPhase_Inr)
  have b: "- 4712 \<le> YearFromTime (t + tz) \<and> localJD tz t = 2451549.5 \<longrightarrow>
        moonPhase tz (Time t) = Inr (Fin 0)"
  proof (intro impI, elim conjE)
    assume y: "- 4712 \<le> YearFromTime (t + tz)" and jd: "localJD tz t = 2451549.5"
    have "phase_spec (localJD tz t) = 0"
      unfolding jd by (simp add: phase_spec_def fmod_def trunc_def)
    with y show "moonPhase tz (Time t) = Inr (Fin 0)"
      by (simp add: moonPhase_Time)
  qed
  have c: "- 4712 \<le> YearFromTime (t + tz) \<longrightarrow>
      julianDay (getFullYear tz (Time t)) (getMonth tz (Time t) + Fin 1)
        (getDate tz (Time t)) (getHours tz (Time t)) (getMinutes tz (Time t))
        (getSeconds tz (Time t)) = Inr (Fin (localJD tz t))
      \<and> moonPhase tz (Time t) = Inr (Fin (phase_spec (localJD tz t)))"
    by (simp add: julianDay_local moonPhase_Time)
  have e: "YearFromTime (t + tz) < - 4712 \<longrightarrow> moonPhase tz (Time t) = Inl InvalidDateParameters"
    by (simp add: moonPhase_Time)
  from a b c e phase_spec_range [of jd] show ?thesis
    by blast
qed

theorem moonPhase_formula_witness:
  "- 4712 \<le> YearFromTime (947116800000 + 0) \<and> localJD 0 947116800000 = 2451549.5
   \<and> moonPhase 0 (Time 947116800000) = Inr (Fin 0)
   \<and> moonPhase 0 (Time 947156400000) = Inr (Fin (34375000 / 2214794151))"
proof -
  have y: "- 4712 \<le> YearFromTime (947116800000 + 0)"
    by code_simp
  have jd: "localJD 0 947116800000 = 2451549.5"
    by code_simp
  have v: "moonPhase 0 (Time 947156400000) = Inr (Fin (34375000 / 2214794151))"
    by code_simp
  from y jd v moonPhase_formula [of 947116800000 0 0 "Time 947156400000" "Fin (34375000 / 2214794151)"]
  show ?thesis
    by blast
qed

text \<open>
  C2 as stated fails: 1 January of the year \<open>-5000\<close> is a valid date, and \<^verbatim>\<open>moonPhase\<close>
  raises on it.
\<close>

theorem moonPhase_raises:
  "validateDate (Time (- 219951936000000)) ''date'' = Inr ()
   \<and> getFullYear 0 (Time (- 219951936000000)) = Fin (- 5000)
   \<and> moonPhase 0 (Time (- 219951936000000)) = Inl InvalidDateParameters"
  by code_simp

section \<open>The refinement and the coarse scan\<close>

declare refineLoop.simps [simp del] scanLoop.simps [simp del] eventsLoop.simps [simp del]

lemma trunc_of_int [simp]: "trunc (of_int n) = n"
  by (simp add: trunc_def)

lemma newDate_of_int:
  "newDate (Fin (of_int n)) = (if \<bar>n\<bar> \<le> 8640000000000000 then Time n else InvalidDate)"
proof -
  have "\<bar>real_of_int n\<bar> \<le> 8640000000000000 \<longleftrightarrow> \<bar>n\<bar> \<le> 8640000000000000"
    by linarith
  then show ?thesis
    by simp
qed

lemma refine_probe:
  "newDate (getTime (Time a) + Fin (of_int m) * Fin 60 * Fin 1000) =
     (if \<bar>a + m * 60000\<bar> \<le> 8640000000000000 then Time (a + m * 60000) else InvalidDate)"
proof -
  have "Fin (of_int a) + Fin (of_int m) * Fin 60 * Fin 1000 = Fin (of_int (a + m * 60000))"
    by simp
  then show ?thesis
    by (simp only: getTime.simps newDate_of_int)
qed


lemma probe_Invalid:
  "newDate (getTime InvalidDate + x) = InvalidDate"
  by (cases x) simp_all


lemma refineLoop_Inl:
  "refineLoop tz d target m bd bdiff = Inl e \<Longrightarrow> InvalidInput e"
proof (induction tz d target m bd bdiff rule: refineLoop.induct)
  case (1 tz d target m bd bdiff)
  from "1.prems" have le: "m \<le> 720"
    by (subst (asm) refineLoop.simps) (simp split: if_splits)
  let ?test = "newDate (getTime d + Fin (of_int m) * Fin 60 * Fin 1000)"
  show ?case
  proof (cases "moonPhase tz ?test")
    case (Inl e')
    with "1.prems" le have "e = e'"
      by (subst (asm) refineLoop.simps) (simp add: Let_def)
    with Inl show ?thesis
      by (simp add: moonPhase_Inl)
  next
    case (Inr ph)
    show ?thesis
    proof (cases "wrappedDiff ph target < bdiff")
      case better: True
      with "1.prems" le Inr
      have "refineLoop tz d target (m + 30) ?test (wrappedDiff ph target) = Inl e"
        by (subst (asm) refineLoop.simps) (simp add: Let_def)
      from "1.IH"(1) [OF le refl Inr refl better this] show ?thesis .
    next
      case worse: False
      with "1.prems" le Inr
      have "refineLoop tz d target (m + 30) bd bdiff = Inl e"
        by (subst (asm) refineLoop.simps) (simp add: Let_def)
      from "1.IH"(2) [OF le refl Inr refl worse this] show ?thesis .
    qed
  qed
qed


lemma refinePhaseDate_Inl: "refinePhaseDate tz d target = Inl e \<Longrightarrow> InvalidInput e"
  by (auto simp: refinePhaseDate_def split: sum.splits dest: moonPhase_Inl refineLoop_Inl)

lemma wrappedDiff_Fin: "wrappedDiff (Fin p) (Fin q) = Fin (circDist p q)"
  by (simp add: wrappedDiff_def circDist_def Let_def)

lemma scan_cond: "Fin (of_int h) < maxDays * Fin 24 \<longleftrightarrow> h \<le> 732"
  by (simp add: maxDays_def) linarith

lemma scanLoop_raw:
  "scanLoop tz d target lbl h bd bdiff =
     (if h \<le> 732 then
        (case moonPhase tz (probeDate d h) of
           Inl e \<Rightarrow> Inl e
         | Inr ph \<Rightarrow>
             (case (if wrappedDiff ph target < bdiff then (wrappedDiff ph target, probeDate d h)
                    else (bdiff, bd)) of
                (bestDiff, bestDate) \<Rightarrow>
                  if bestDiff < Fin 0.02 then refinePhaseDate tz bestDate target
                  else scanLoop tz d target lbl (h + 2) bestDate bestDiff))
      else if bdiff < Fin 0.1 then refinePhaseDate tz bd target
      else Inl (PhaseNotFound lbl))"
  by (subst scanLoop.simps) (simp only: scan_cond Let_def probeDate_def [symmetric])

lemma scanLoop_unfold:
  "scanLoop tz d target lbl h bd bdiff =
     (if h \<le> 732 then
        (case moonPhase tz (probeDate d h) of
           Inl e \<Rightarrow> Inl e
         | Inr ph \<Rightarrow>
             if (if wrappedDiff ph target < bdiff then wrappedDiff ph target else bdiff) < Fin 0.02
             then refinePhaseDate tz (if wrappedDiff ph target < bdiff then probeDate d h else bd) target
             else scanLoop tz d target lbl (h + 2)
                    (if wrappedDiff ph target < bdiff then probeDate d h else bd)
                    (if wrappedDiff ph target < bdiff then wrappedDiff ph target else bdiff))
      else if bdiff < Fin 0.1 then refinePhaseDate tz bd target
      else Inl (PhaseNotFound lbl))"
proof (cases "moonPhase tz (probeDate d h)")
  case (Inl e)
  then show ?thesis
    by (subst scanLoop_raw) simp
next
  case (Inr ph)
  then show ?thesis
    by (subst scanLoop_raw) (cases "wrappedDiff ph target < bdiff"; simp)
qed



lemma scanLoop_Inl:
  "scanLoop tz d target lbl h bd bdiff = Inl e \<Longrightarrow> InvalidInput e \<or> e = PhaseNotFound lbl"
proof (induction "nat (733 - h)" arbitrary: h bd bdiff rule: less_induct)
  case less
  show ?case
  proof (cases "h \<le> 732")
    case False
    with less.prems show ?thesis
      by (subst (asm) scanLoop_unfold) (auto split: if_splits dest: refinePhaseDate_Inl)
  next
    case True
    have m: "nat (733 - (h + 2)) < nat (733 - h)"
      using True by simp
    from less.prems True show ?thesis
      by (subst (asm) scanLoop_unfold)
         (auto split: sum.splits if_splits dest: refinePhaseDate_Inl moonPhase_Inl less.hyps [OF m])
  qed
qed

lemma range_split:
  fixes j :: int
  assumes "j \<le> n"
  shows "(\<forall>i. j \<le> i \<and> i \<le> n \<longrightarrow> P i) \<longleftrightarrow> P j \<and> (\<forall>i. j + 1 \<le> i \<and> i \<le> n \<longrightarrow> P i)"
proof -
  have "j \<le> i \<longleftrightarrow> i = j \<or> j + 1 \<le> i" for i
    by linarith
  with assms show ?thesis
    by auto
qed

text \<open>The scan from step \<open>j\<close> on, with a finite best distance \<open>b\<close>.\<close>

lemma scanLoop_notFound:
  "h = 2 * j \<Longrightarrow>
   scanLoop tz d (Fin q) lbl h bd (Fin b) = Inl (PhaseNotFound l) \<longleftrightarrow>
     l = lbl \<and> 0.1 \<le> b \<and>
     (\<forall>i. j \<le> i \<and> i \<le> 366 \<longrightarrow>
        (\<exists>p. moonPhase tz (probeDate d (2 * i)) = Inr (Fin p) \<and> 0.1 \<le> circDist p q))"
proof (induction "nat (367 - j)" arbitrary: h j bd b rule: less_induct)
  case less
  note h = \<open>h = 2 * j\<close>
  define P where
    "P = (\<lambda>i. \<exists>p. moonPhase tz (probeDate d (2 * i)) = Inr (Fin p) \<and> 0.1 \<le> circDist p q)"
  have goal: ?case if "scanLoop tz d (Fin q) lbl h bd (Fin b) = Inl (PhaseNotFound l) \<longleftrightarrow>
     l = lbl \<and> 0.1 \<le> b \<and> (\<forall>i. j \<le> i \<and> i \<le> 366 \<longrightarrow> P i)"
    using that unfolding P_def .
  show ?case
  proof (cases "j \<le> 366")
    case False
    then have "\<not> h \<le> 732"
      using h by simp
    then have "scanLoop tz d (Fin q) lbl h bd (Fin b) =
        (if b < 0.1 then refinePhaseDate tz bd (Fin q) else Inl (PhaseNotFound lbl))"
      by (subst scanLoop_unfold) simp
    moreover have "refinePhaseDate tz bd (Fin q) \<noteq> Inl (PhaseNotFound l)"
      by (auto dest: refinePhaseDate_Inl)
    moreover have "\<forall>i. j \<le> i \<and> i \<le> 366 \<longrightarrow> P i"
      using False by auto
    ultimately have "scanLoop tz d (Fin q) lbl h bd (Fin b) = Inl (PhaseNotFound l) \<longleftrightarrow>
          l = lbl \<and> 0.1 \<le> b \<and> (\<forall>i. j \<le> i \<and> i \<le> 366 \<longrightarrow> P i)"
      by (cases "b < 0.1") auto
    then show ?thesis
      by (rule goal)
  next
    case True
    then have h732: "h \<le> 732"
      using h by simp
    note split = range_split [OF True, of P]
    show ?thesis
    proof (cases "moonPhase tz (probeDate d h)")
      case (Inl e)
      then have "InvalidInput e"
        by (rule moonPhase_Inl)
      then have "e \<noteq> PhaseNotFound l"
        by auto
      moreover from Inl h732 have "scanLoop tz d (Fin q) lbl h bd (Fin b) = Inl e"
        by (subst scanLoop_unfold) simp
      moreover from Inl have "\<not> P j"
        unfolding h P_def by simp
      ultimately have "scanLoop tz d (Fin q) lbl h bd (Fin b) = Inl (PhaseNotFound l) \<longleftrightarrow>
          l = lbl \<and> 0.1 \<le> b \<and> (\<forall>i. j \<le> i \<and> i \<le> 366 \<longrightarrow> P i)"
        by (simp add: split)
      then show ?thesis
        by (rule goal)
    next
      case (Inr v)
      then obtain p where p: "v = Fin p"
        by (auto elim: moonPhase_Inr)
      define c where "c = circDist p q"
      define b' where "b' = (if c < b then c else b)"
      define bd' where "bd' = (if c < b then probeDate d h else bd)"
      have Pj: "P j \<longleftrightarrow> 0.1 \<le> c"
        using Inr unfolding h p c_def P_def by simp
      have b': "0.1 \<le> b' \<longleftrightarrow> 0.1 \<le> b \<and> 0.1 \<le> c"
        unfolding b'_def by auto
      have step: "scanLoop tz d (Fin q) lbl h bd (Fin b) =
          (if b' < 0.02 then refinePhaseDate tz bd' (Fin q)
           else scanLoop tz d (Fin q) lbl (h + 2) bd' (Fin b'))"
        using Inr h732 unfolding p b'_def bd'_def c_def
        by (subst scanLoop_unfold) (simp add: wrappedDiff_Fin)
      show ?thesis
      proof (cases "b' < 0.02")
        case True
        have "refinePhaseDate tz bd' (Fin q) \<noteq> Inl (PhaseNotFound l)"
          by (auto dest: refinePhaseDate_Inl)
        with step True
        have "scanLoop tz d (Fin q) lbl h bd (Fin b) \<noteq> Inl (PhaseNotFound l)"
          by simp
        moreover from True have "\<not> 0.1 \<le> b'"
          by simp
        with b' have "\<not> (0.1 \<le> b \<and> P j)"
          unfolding Pj by blast
        ultimately have "scanLoop tz d (Fin q) lbl h bd (Fin b) = Inl (PhaseNotFound l) \<longleftrightarrow>
          l = lbl \<and> 0.1 \<le> b \<and> (\<forall>i. j \<le> i \<and> i \<le> 366 \<longrightarrow> P i)"
          unfolding split by blast
        then show ?thesis
          by (rule goal)
      next
        case False
        have m: "nat (367 - (j + 1)) < nat (367 - j)"
          using True by simp
        have h2: "h + 2 = 2 * (j + 1)"
          using h by simp
        have "scanLoop tz d (Fin q) lbl h bd (Fin b) = Inl (PhaseNotFound l) \<longleftrightarrow>
            scanLoop tz d (Fin q) lbl (h + 2) bd' (Fin b') = Inl (PhaseNotFound l)"
          using step False by simp
        also have "\<dots> \<longleftrightarrow> l = lbl \<and> 0.1 \<le> b' \<and> (\<forall>i. j + 1 \<le> i \<and> i \<le> 366 \<longrightarrow> P i)"
          unfolding P_def by (rule less.hyps [OF m h2])
        also have "\<dots> \<longleftrightarrow> l = lbl \<and> 0.1 \<le> b \<and> (\<forall>i. j \<le> i \<and> i \<le> 366 \<longrightarrow> P i)"
          unfolding split b' Pj by blast
        finally show ?thesis
          by (rule goal)
      qed
    qed
  qed
qed

text \<open>
  The refinement never moves away from the target, so the instant a search returns has a
  phase within \<open>0.1\<close> of its target.
\<close>

lemma refineLoop_unfold:
  "refineLoop tz (Time a) target m bd bdiff =
     (if m \<le> 720 then
        (case moonPhase tz (Time (a + m * 60000)) of
           Inl e \<Rightarrow> if \<bar>a + m * 60000\<bar> \<le> 8640000000000000 then Inl e
                    else Inl (InvalidDateProvided ''date'')
         | Inr ph \<Rightarrow>
             if \<bar>a + m * 60000\<bar> \<le> 8640000000000000 then
               (if wrappedDiff ph target < bdiff
                then refineLoop tz (Time a) target (m + 30) (Time (a + m * 60000))
                       (wrappedDiff ph target)
                else refineLoop tz (Time a) target (m + 30) bd bdiff)
             else Inl (InvalidDateProvided ''date''))
      else Inr bd)"
  by (subst refineLoop.simps)
     (simp only: refine_probe Let_def moonPhase_Invalid sum.case split: if_splits sum.splits, simp)

lemma refineLoop_close:
  "refineLoop tz (Time a) (Fin q) m bd (Fin b) = Inr r \<Longrightarrow>
   \<exists>p. moonPhase tz bd = Inr (Fin p) \<and> circDist p q \<le> b \<Longrightarrow>
     \<exists>p. moonPhase tz r = Inr (Fin p) \<and> circDist p q \<le> b"
proof (induction "nat (721 - m)" arbitrary: m bd b rule: less_induct)
  case less
  note run = less.prems(1) and inv = less.prems(2)
  show ?case
  proof (cases "m \<le> 720")
    case False
    with run have "r = bd"
      by (subst (asm) refineLoop_unfold) simp
    with inv show ?thesis
      by simp
  next
    case True
    have m: "nat (721 - (m + 30)) < nat (721 - m)"
      using True by simp
    from run True obtain v where v: "moonPhase tz (Time (a + m * 60000)) = Inr v"
      by (subst (asm) refineLoop_unfold) (auto split: sum.splits if_splits)
    then obtain p where p: "v = Fin p"
      by (auto elim: moonPhase_Inr)
    define c where "c = circDist p q"
    show ?thesis
    proof (cases "c < b")
      case better: True
      with run True v p
      have rec: "refineLoop tz (Time a) (Fin q) (m + 30) (Time (a + m * 60000)) (Fin c) = Inr r"
        unfolding c_def
        by (subst (asm) refineLoop_unfold) (simp add: wrappedDiff_Fin split: if_splits)
      have "\<exists>p. moonPhase tz (Time (a + m * 60000)) = Inr (Fin p) \<and> circDist p q \<le> c"
        using v p c_def by simp
      from less.hyps [OF m rec this] better show ?thesis
        by force
    next
      case worse: False
      with run True v p
      have rec: "refineLoop tz (Time a) (Fin q) (m + 30) bd (Fin b) = Inr r"
        unfolding c_def
        by (subst (asm) refineLoop_unfold) (simp add: wrappedDiff_Fin split: if_splits)
      from less.hyps [OF m rec inv] show ?thesis .
    qed
  qed
qed

lemma refinePhaseDate_close:
  assumes "refinePhaseDate tz bd (Fin q) = Inr r" and "moonPhase tz bd = Inr (Fin p)"
  shows "\<exists>p'. moonPhase tz r = Inr (Fin p') \<and> circDist p' q \<le> circDist p q"
proof -
  from assms(2) obtain a where a: "bd = Time a"
    by (auto elim: moonPhase_Inr)
  from assms have "refineLoop tz (Time a) (Fin q) (- 720) bd (Fin (circDist p q)) = Inr r"
    by (simp add: refinePhaseDate_def a wrappedDiff_Fin)
  from refineLoop_close [OF this] assms(2) show ?thesis
    by auto
qed

lemma scanLoop_close:
  "scanLoop tz d (Fin q) lbl h bd (Fin b) = Inr r \<Longrightarrow>
   0.1 \<le> b \<or> (\<exists>p. moonPhase tz bd = Inr (Fin p) \<and> circDist p q = b) \<Longrightarrow>
     \<exists>p. moonPhase tz r = Inr (Fin p) \<and> circDist p q < 0.1"
proof (induction "nat (733 - h)" arbitrary: h bd b rule: less_induct)
  case less
  note run = less.prems(1) and inv = less.prems(2)
  show ?case
  proof (cases "h \<le> 732")
    case False
    with run have b: "b < 0.1" and "refinePhaseDate tz bd (Fin q) = Inr r"
      by (subst (asm) scanLoop_unfold, simp split: if_splits)+
    with inv show ?thesis
      by (force dest: refinePhaseDate_close)
  next
    case True
    from run True obtain v where v: "moonPhase tz (probeDate d h) = Inr v"
      by (subst (asm) scanLoop_unfold) (auto split: sum.splits)
    then obtain p where p: "v = Fin p"
      by (auto elim: moonPhase_Inr)
    define c where "c = circDist p q"
    define b' where "b' = (if c < b then c else b)"
    define bd' where "bd' = (if c < b then probeDate d h else bd)"
    have inv': "0.1 \<le> b' \<or> (\<exists>p. moonPhase tz bd' = Inr (Fin p) \<and> circDist p q = b')"
      using inv v p unfolding b'_def bd'_def c_def by auto
    have "scanLoop tz d (Fin q) lbl h bd (Fin b) =
        (if b' < 0.02 then refinePhaseDate tz bd' (Fin q)
         else scanLoop tz d (Fin q) lbl (h + 2) bd' (Fin b'))"
      using v True unfolding p b'_def bd'_def c_def
      by (subst scanLoop_unfold) (simp add: wrappedDiff_Fin)
    with run have step: "(if b' < 0.02 then refinePhaseDate tz bd' (Fin q)
        else scanLoop tz d (Fin q) lbl (h + 2) bd' (Fin b')) = Inr r"
      by simp
    show ?thesis
    proof (cases "b' < 0.02")
      case True
      with step have "refinePhaseDate tz bd' (Fin q) = Inr r"
        by simp
      with inv' True show ?thesis
        by (force dest: refinePhaseDate_close)
    next
      case False
      with step have rec: "scanLoop tz d (Fin q) lbl (h + 2) bd' (Fin b') = Inr r"
        by simp
      have "nat (733 - (h + 2)) < nat (733 - h)"
        using True by simp
      from less.hyps [OF this rec inv'] show ?thesis .
    qed
  qed
qed

lemma findNextPhase_close:
  assumes "findNextPhase tz fromDate (Fin q) lbl = Inr r"
  shows "\<exists>p. moonPhase tz r = Inr (Fin p) \<and> circDist p q < 0.1"
  using assms unfolding findNextPhase_def Let_def
  by (rule scanLoop_close) simp

lemma nextPhase_close:
  "(nextNewMoon tz fromDate = Inr r \<longrightarrow> (\<exists>p. moonPhase tz r = Inr (Fin p) \<and> circDist p 0 < 0.1))
   \<and> (nextFullMoon tz fromDate = Inr r \<longrightarrow>
        (\<exists>p. moonPhase tz r = Inr (Fin p) \<and> circDist p 0.5 < 0.1))"
  by (auto simp: nextNewMoon_def nextFullMoon_def split: sum.splits dest: findNextPhase_close)


lemma probeDate_Invalid: "probeDate InvalidDate h = InvalidDate"
  by (simp add: probeDate_def)



lemma nextNewMoon_example: "nextNewMoon 0 (Time 947156400000) = Inr (Time 947116800000)"
  by code_simp

lemma nextNewMoon_overflow:
  "nextNewMoon 0 (Time 8640000000000000) = Inl (InvalidDateProvided ''date'')"
  by code_simp

lemma nextNewMoon_early_year:
  "nextNewMoon 0 (Time (- 219951936000000)) = Inl InvalidDateParameters"
  by code_simp



text \<open>
  C3. From 11:00 on 6 January 2000 (offset 0) \<^verbatim>\<open>nextNewMoon\<close> returns 00:00 of that day:
  the result is not after the start.
\<close>

theorem nextNewMoon_not_after:
  "nextNewMoon 0 (Time 947156400000) = Inr (Time 947116800000)
   \<and> \<not> getTime (Time 947156400000) < getTime (Time 947116800000)"
  using nextNewMoon_example by simp

lemma scanMisses_iff:
  "scanMisses tz fromDate q \<longleftrightarrow>
     (\<forall>i. 0 \<le> i \<and> i \<le> 366 \<longrightarrow>
        (\<exists>p. moonPhase tz (probeDate (addHours fromDate 1) (2 * i)) = Inr (Fin p)
           \<and> 0.1 \<le> circDist p q))"
  by (auto simp: scanMisses_def)

lemma findNextPhase_notFound:
  "findNextPhase tz fromDate (Fin q) lbl = Inl (PhaseNotFound l) \<longleftrightarrow>
     l = lbl \<and> scanMisses tz fromDate q"
  unfolding findNextPhase_def Let_def scanMisses_iff
  by (subst scanLoop_notFound [of 0 0]) simp_all

lemma findNextPhase_Inl:
  "findNextPhase tz fromDate target lbl = Inl e \<Longrightarrow> InvalidInput e \<or> e = PhaseNotFound lbl"
  unfolding findNextPhase_def Let_def by (rule scanLoop_Inl)

text \<open>
  C4, as the code has it. \<^verbatim>\<open>nextNewMoon\<close> and \<^verbatim>\<open>nextFullMoon\<close> fail with
  \<open>PhaseNotFound\<close> exactly when the scan misses: every probe has a phase, at least \<open>0.1\<close>
  away from the target. Any other error they raise is an \<open>InvalidInput\<close>.
\<close>

theorem nextPhase_notFound:
  "(nextNewMoon tz fromDate = Inl (PhaseNotFound l) \<longleftrightarrow>
      l = ''new moon'' \<and> scanMisses tz fromDate 0)
   \<and> (nextFullMoon tz fromDate = Inl (PhaseNotFound l) \<longleftrightarrow>
      l = ''full moon'' \<and> scanMisses tz fromDate 0.5)
   \<and> (nextNewMoon tz fromDate = Inl e \<longrightarrow> InvalidInput e \<or> e = PhaseNotFound ''new moon'')
   \<and> (nextFullMoon tz fromDate = Inl e \<longrightarrow> InvalidInput e \<or> e = PhaseNotFound ''full moon'')"
proof (cases fromDate)
  case InvalidDate
  have "\<not> scanMisses tz InvalidDate q" for q
    unfolding scanMisses_iff
    by (auto simp: addHours_def probeDate_Invalid moonPhase_Invalid intro: exI [of _ 0])
  with InvalidDate show ?thesis
    by (auto simp: nextNewMoon_def nextFullMoon_def validateDate_def)
next
  case (Time t)
  then have "nextNewMoon tz fromDate = findNextPhase tz fromDate (Fin 0) ''new moon''"
    and "nextFullMoon tz fromDate = findNextPhase tz fromDate (Fin 0.5) ''full moon''"
    by (simp_all add: nextNewMoon_def nextFullMoon_def validateDate_def)
  then show ?thesis
    using findNextPhase_notFound [of tz fromDate 0 "''new moon''" l]
      findNextPhase_notFound [of tz fromDate "0.5" "''full moon''" l]
      findNextPhase_Inl [of tz fromDate "Fin 0" "''new moon''" e]
      findNextPhase_Inl [of tz fromDate "Fin 0.5" "''full moon''" e]
    by simp
qed

theorem nextPhase_notFound_witness:
  "nextNewMoon 0 (Time 8640000000000000) = Inl (InvalidDateProvided ''date'')
   \<and> \<not> scanMisses 0 (Time 8640000000000000) 0"
  using nextPhase_notFound [of 0 "Time 8640000000000000" "''new moon''"] nextNewMoon_overflow
  by simp

text \<open>
  C4 as stated fails: the scan does not complete, and yet an error is raised. From the
  last valid date the first probe is an invalid date; from 1 January of the year \<open>-5000\<close>
  the first probe is before the year \<open>-4712\<close>.
\<close>

theorem nextNewMoon_other_errors:
  "nextNewMoon 0 (Time 8640000000000000) = Inl (InvalidDateProvided ''date'')
   \<and> nextNewMoon 0 (Time (- 219951936000000)) = Inl InvalidDateParameters"
  using nextNewMoon_overflow nextNewMoon_early_year by simp

section \<open>findPhaseEvents\<close>

lemma addDays_Time:
  "addDays (Time t) n =
     (if \<bar>t + n * 86400000\<bar> \<le> 8640000000000000 then Time (t + n * 86400000) else InvalidDate)"
proof -
  have "Fin (of_int t) + Fin (of_int (n * 86400000)) = Fin (of_int (t + n * 86400000))"
    by simp
  then show ?thesis
    unfolding addDays_def msPerDay_def by (simp only: getTime.simps newDate_of_int)
qed

lemma eventsLoop_unfold:
  "eventsLoop tz s e endTime sd evs =
     (if getTime sd \<le> endTime then
        (case moonPhase tz sd of
           Inl err \<Rightarrow> Inl err
         | Inr ph \<Rightarrow>
             (case moonPhase tz (addDays sd (- 1)) of
                Inl err \<Rightarrow> Inl err
              | Inr prev \<Rightarrow>
                  (case moonPhase tz (addDays sd 1) of
                     Inl err \<Rightarrow> Inl err
                   | Inr nxt \<Rightarrow>
                       eventsLoop tz s e endTime (addDays sd 1)
                         (if phaseType ph prev nxt \<noteq> [] \<and> getTime s \<le> getTime sd
                             \<and> getTime sd \<le> getTime e
                          then evs @ [\<lparr>date = sd, type = phaseType ph prev nxt, phase = ph\<rparr>]
                          else evs))))
      else Inr evs)"
  by (subst eventsLoop.simps) (simp only: Let_def)

lemma loopMeasure_next: "loopMeasure (addDays (Time t) 1) < loopMeasure (Time t)"
  by (auto simp: loopMeasure_def addDays_Time abs_le_iff)

lemma getTime_le_Time: "getTime sd \<le> x \<Longrightarrow> \<exists>t. sd = Time t"
  by (cases sd) simp_all

lemma eventsLoop_Inl: "eventsLoop tz s e endTime sd evs = Inl err \<Longrightarrow> InvalidInput err"
proof (induction "loopMeasure sd" arbitrary: sd evs rule: less_induct)
  case less
  from less.prems have c: "getTime sd \<le> endTime"
    by (subst (asm) eventsLoop_unfold) (simp split: if_splits)
  then obtain t where t: "sd = Time t"
    by (auto dest: getTime_le_Time)
  have m: "loopMeasure (addDays sd 1) < loopMeasure sd"
    unfolding t by (rule loopMeasure_next)
  from less.prems c show ?case
    by (subst (asm) eventsLoop_unfold)
       (auto split: sum.splits dest: moonPhase_Inl less.hyps [OF m])
qed

lemma eventsLoop_invariant:
  assumes "eventsLoop tz (Time ts) (Time te) endTime sd evs = Inr res"
    and "\<forall>ev\<in>set evs. \<exists>u. date ev = Time u \<and> ts \<le> u \<and> u \<le> te \<and> (\<forall>t. sd = Time t \<longrightarrow> u < t)"
    and "chronological evs"
  shows "(\<forall>ev\<in>set res. \<exists>u. date ev = Time u \<and> ts \<le> u \<and> u \<le> te)
    \<and> chronological res \<and> (te < ts \<longrightarrow> res = evs)"
  using assms
proof (induction "loopMeasure sd" arbitrary: sd evs rule: less_induct)
  case less
  note run = less.prems(1) and inv = less.prems(2) and chrono = less.prems(3)
  show ?case
  proof (cases "getTime sd \<le> endTime")
    case False
    with run have "res = evs"
      by (subst (asm) eventsLoop_unfold) simp
    with inv chrono show ?thesis
      by blast
  next
    case True
    then obtain t where t: "sd = Time t"
      by (auto dest: getTime_le_Time)
    from run True obtain ph prev nxt where ph: "moonPhase tz sd = Inr ph"
      and prev: "moonPhase tz (addDays sd (- 1)) = Inr prev"
      and nxt: "moonPhase tz (addDays sd 1) = Inr nxt"
      by (subst (asm) eventsLoop_unfold) (auto split: sum.splits)
    define keep where "keep \<longleftrightarrow> phaseType ph prev nxt \<noteq> [] \<and> ts \<le> t \<and> t \<le> te"
    define evs' where
      "evs' = (if keep then evs @ [\<lparr>date = sd, type = phaseType ph prev nxt, phase = ph\<rparr>] else evs)"
    from run True ph prev nxt
    have rec: "eventsLoop tz (Time ts) (Time te) endTime (addDays sd 1) evs' = Inr res"
      unfolding evs'_def keep_def t
      by (subst (asm) eventsLoop_unfold) simp
    from nxt obtain t' where t': "addDays sd 1 = Time t'"
      by (auto elim: moonPhase_Inr)
    then have lt: "t < t'"
      unfolding t by (simp add: addDays_Time split: if_splits)
    have old: "\<exists>u. date ev = Time u \<and> ts \<le> u \<and> u \<le> te \<and> u < t'" if "ev \<in> set evs" for ev
      using inv that lt unfolding t by force
    have inv': "\<forall>ev\<in>set evs'. \<exists>u. date ev = Time u \<and> ts \<le> u \<and> u \<le> te
        \<and> (\<forall>t. addDays sd 1 = Time t \<longrightarrow> u < t)"
      unfolding t' evs'_def keep_def using old lt by (auto simp: t)
    have chrono': "chronological evs'"
      using inv chrono unfolding evs'_def chronological_def t
      by (auto simp: sorted_wrt_append)
    have m: "loopMeasure (addDays sd 1) < loopMeasure sd"
      unfolding t by (rule loopMeasure_next)
    from less.hyps [OF m rec inv' chrono'] show ?thesis
      unfolding evs'_def keep_def by auto
  qed
qed

lemma eventsLoop_returns:
  assumes "\<forall>u. lo \<le> u \<and> u \<le> hi \<longrightarrow> \<bar>u\<bar> \<le> 8640000000000000 \<and> - 4712 \<le> YearFromTime (u + tz)"
    and "sd = Time t" and "lo + 86400000 \<le> t" and "E + 86400000 \<le> hi"
  shows "\<exists>res. eventsLoop tz s e (Fin (of_int E)) sd evs = Inr res"
  using assms(2,3)
proof (induction "loopMeasure sd" arbitrary: sd t evs rule: less_induct)
  case less
  note t = \<open>sd = Time t\<close>
  show ?case
  proof (cases "t \<le> E")
    case False
    then show ?thesis
      unfolding t by (subst eventsLoop_unfold) simp
  next
    case True
    have ok: "moonPhase tz (Time u) = Inr (Fin (phase_spec (localJD tz u)))
        \<and> \<bar>u\<bar> \<le> 8640000000000000" if "lo \<le> u" "u \<le> hi" for u
      using assms(1) [rule_format, of u] that by (simp add: moonPhase_Time)
    have r0: "lo \<le> t" "t \<le> hi" and r1: "lo \<le> t + 86400000" "t + 86400000 \<le> hi"
      and r2: "lo \<le> t - 86400000" "t - 86400000 \<le> hi"
      using True less.prems assms(4) by simp_all
    have nxt: "addDays sd 1 = Time (t + 86400000)" and prev: "addDays sd (- 1) = Time (t - 86400000)"
      unfolding t using ok [OF r1] ok [OF r2] by (simp_all add: addDays_Time)
    have c: "getTime sd \<le> Fin (of_int E)"
      unfolding t using True by simp
    obtain v0 v1 v2 where p0: "moonPhase tz sd = Inr v0"
      and p1: "moonPhase tz (addDays sd (- 1)) = Inr v1"
      and p2: "moonPhase tz (addDays sd 1) = Inr v2"
      unfolding nxt prev unfolding t using ok [OF r0] ok [OF r1] ok [OF r2] by blast
    have m: "loopMeasure (addDays sd 1) < loopMeasure sd"
      unfolding t by (rule loopMeasure_next)
    have "lo + 86400000 \<le> t + 86400000"
      using r0 by simp
    from less.hyps [OF m nxt this] show ?thesis
      by (subst eventsLoop_unfold) (simp add: c p0 p1 p2)
  qed
qed

lemma civil_year_lower: "400 * ((n + 719468) div 146097) \<le> fst (civil n)"
proof -
  define z where "z = n + 719468"
  define r400 where "r400 = z mod 146097"
  define n100 where "n100 = min 3 (r400 div 36524)"
  define r100 where "r100 = r400 - 36524 * n100"
  define n4 where "n4 = r100 div 1461"
  define n1 where "n1 = min 3 (r100 mod 1461 div 365)"
  have r400: "0 \<le> r400"
    by (simp add: r400_def)
  then have n100: "0 \<le> n100"
    by (simp add: n100_def)
  have "36524 * n100 \<le> 36524 * (r400 div 36524)"
    unfolding n100_def by simp
  also have "\<dots> \<le> r400"
    using r400 by linarith
  finally have "0 \<le> r100"
    by (simp add: r100_def)
  then have n4: "0 \<le> n4"
    by (simp add: n4_def)
  have n1: "0 \<le> n1"
    by (simp add: n1_def)
  have "\<exists>doy. yearDay n = (400 * (z div 146097) + 100 * n100 + 4 * n4 + n1, doy)"
    unfolding yearDay_def Let_def z_def r400_def n100_def r100_def n4_def n1_def by blast
  then obtain doy where "yearDay n = (400 * (z div 146097) + 100 * n100 + 4 * n4 + n1, doy)"
    by blast
  then have "400 * (z div 146097) + 100 * n100 + 4 * n4 + n1 \<le> fst (civil n)"
    by (simp add: civil_def Let_def)
  with n100 n4 n1 show ?thesis
    unfolding z_def by linarith
qed

lemma YearFromTime_lower:
  assumes "- 201012624000000 \<le> t"
  shows "- 4712 \<le> YearFromTime t"
proof -
  have "- 2326535 \<le> Day t"
    using assms unfolding Day_def msPerDay_def by linarith
  then have "- 11 \<le> (Day t + 719468) div 146097"
    by linarith
  with civil_year_lower [of "Day t"] show ?thesis
    unfolding YearFromTime_def by linarith
qed

lemma findPhaseEvents_Time:
  "findPhaseEvents tz (Time ts) (Time te) =
     eventsLoop tz (Time ts) (Time te) (Fin (of_int (te + 172800000))) (addDays (Time ts) (- 2)) []"
  by (simp add: findPhaseEvents_def validateDate_def Let_def)

lemma findPhaseEvents_Invalid:
  "startDate = InvalidDate \<or> endDate = InvalidDate \<Longrightarrow>
     \<exists>p. findPhaseEvents tz startDate endDate = Inl (InvalidDateProvided p)"
  by (cases startDate; cases endDate) (auto simp: findPhaseEvents_def validateDate_def)

text \<open>
  C5, as the code has it. When \<^verbatim>\<open>findPhaseEvents\<close> returns, every event lies within the
  range asked for, the events are in chronological order, and the result is empty when the
  end is before the start. It raises nothing but \<open>InvalidInput\<close>, and it returns whenever
  every instant from three days before the start to three days after the end is a valid
  time value of a local year from \<open>-4712\<close> on.
\<close>

theorem findPhaseEvents_events:
  "(findPhaseEvents tz startDate endDate = Inr evs \<longrightarrow>
      (\<forall>ev\<in>set evs. inRange startDate endDate ev) \<and> chronological evs
      \<and> (getTime endDate < getTime startDate \<longrightarrow> evs = []))
   \<and> (findPhaseEvents tz startDate endDate = Inl err \<longrightarrow> InvalidInput err)
   \<and> ((\<forall>u. ts - 3 * msPerDay \<le> u \<and> u \<le> te + 3 * msPerDay \<longrightarrow>
          \<bar>u\<bar> \<le> 8640000000000000 \<and> - 4712 \<le> YearFromTime (u + tz)) \<longrightarrow>
        (\<exists>res. findPhaseEvents tz (Time ts) (Time te) = Inr res))"
proof -
  have a: "(\<forall>ev\<in>set evs. inRange startDate endDate ev) \<and> chronological evs
      \<and> (getTime endDate < getTime startDate \<longrightarrow> evs = [])"
    if run: "findPhaseEvents tz startDate endDate = Inr evs"
  proof -
    from run findPhaseEvents_Invalid [of startDate endDate tz]
    obtain s e where se: "startDate = Time s" "endDate = Time e"
      by (cases startDate; cases endDate) auto
    from run have "eventsLoop tz (Time s) (Time e) (Fin (of_int (e + 172800000)))
        (addDays (Time s) (- 2)) [] = Inr evs"
      unfolding se findPhaseEvents_Time .
    from eventsLoop_invariant [OF this] show ?thesis
      unfolding se inRange_def by (fastforce simp: chronological_def)
  qed
  have b: "InvalidInput err" if "findPhaseEvents tz startDate endDate = Inl err"
    using that
    by (auto simp: findPhaseEvents_def validateDate_def Let_def
        split: if_splits dest: eventsLoop_Inl)
  have c: "\<exists>res. findPhaseEvents tz (Time ts) (Time te) = Inr res"
    if ok: "\<forall>u. ts - 3 * msPerDay \<le> u \<and> u \<le> te + 3 * msPerDay \<longrightarrow>
          \<bar>u\<bar> \<le> 8640000000000000 \<and> - 4712 \<le> YearFromTime (u + tz)"
  proof (cases "addDays (Time ts) (- 2)")
    case InvalidDate
    then show ?thesis
      unfolding findPhaseEvents_Time by (subst eventsLoop_unfold) simp
  next
    case (Time t)
    then have t: "t = ts - 172800000"
      by (simp add: addDays_Time split: if_splits)
    from ok have ok': "\<forall>u. ts - 259200000 \<le> u \<and> u \<le> te + 259200000 \<longrightarrow>
          \<bar>u\<bar> \<le> 8640000000000000 \<and> - 4712 \<le> YearFromTime (u + tz)"
      by (simp add: msPerDay_def)
    show ?thesis
      unfolding findPhaseEvents_Time
      by (rule eventsLoop_returns [OF ok' Time]) (simp_all add: t)
  qed
  from a b c show ?thesis
    by blast
qed

lemma findPhaseEvents_example:
  "findPhaseEvents 0 (Time 947116800000) (Time 947116800000) =
     Inr [\<lparr>date = Time 947116800000, type = ''new-moon'', phase = Fin 0\<rparr>]"
  by code_simp

theorem findPhaseEvents_events_witness:
  "findPhaseEvents 0 (Time 947116800000) (Time 947116800000) =
     Inr [\<lparr>date = Time 947116800000, type = ''new-moon'', phase = Fin 0\<rparr>]
   \<and> inRange (Time 947116800000) (Time 947116800000)
       \<lparr>date = Time 947116800000, type = ''new-moon'', phase = Fin 0\<rparr>
   \<and> chronological [\<lparr>date = Time 947116800000, type = ''new-moon'', phase = Fin 0\<rparr>]"
proof -
  have "\<bar>u\<bar> \<le> 8640000000000000 \<and> - 4712 \<le> YearFromTime (u + 0)"
    if "947116800000 - 3 * msPerDay \<le> u \<and> u \<le> 947116800000 + 3 * msPerDay" for u
    using that YearFromTime_lower [of u] by (simp add: msPerDay_def)
  with findPhaseEvents_events [of 0 "Time 947116800000" "Time 947116800000"
      "[\<lparr>date = Time 947116800000, type = ''new-moon'', phase = Fin 0\<rparr>]" _ 947116800000 947116800000]
    findPhaseEvents_example
  show ?thesis
    by simp
qed

text \<open>
  C5 as stated fails: both dates are valid and have a phase, the end (1 January \<open>-4712\<close>)
  is before the start (2 January \<open>-4712\<close>), and the scan, which begins two days before the
  start, raises.
\<close>

theorem findPhaseEvents_raises:
  "moonPhase 0 (Time (- 210863433600000)) \<noteq> Inl InvalidDateParameters
   \<and> moonPhase 0 (Time (- 210863520000000)) \<noteq> Inl InvalidDateParameters
   \<and> getTime (Time (- 210863520000000)) < getTime (Time (- 210863433600000))
   \<and> findPhaseEvents 0 (Time (- 210863433600000)) (Time (- 210863520000000))
       = Inl InvalidDateParameters"
  by code_simp

end
